theory Spec2Isabelle
  imports Complex_Main
begin

section \<open>Values of the host language\<close>

text \<open>
  The hook keeps payloads in \<open>useState<any>\<close> cells and tests them by truthiness
  (\<open>config.ttl && cache && ...\<close>), so payloads are modelled as JSON-like values together
  with JavaScript's truthiness. \<open>JObj n\<close> stands for any object or array (always truthy),
  identified by \<open>n\<close>.
\<close>

datatype jsval = JNull | JBool bool | JNum int | JStr string | JObj nat

fun truthy :: "jsval \<Rightarrow> bool" where
  "truthy JNull = False"
| "truthy (JBool b) = b"
| "truthy (JNum n) = (n \<noteq> 0)"
| "truthy (JStr s) = (s \<noteq> [])"
| "truthy (JObj _) = True"

text \<open>
  What the transport rejects with: a cancellation (\<open>axios.isCancel\<close> answers true) or any
  other failure, identified by a number.
\<close>

datatype failure = Cancel | Failure nat

fun isCancel :: "failure \<Rightarrow> bool" where
  "isCancel Cancel = True"
| "isCancel (Failure _) = False"

text \<open>The completion of \<open>axiosInstance.request\<close>: \<open>Resolved d\<close> carries \<open>response.data\<close>.\<close>

datatype outcome = Resolved jsval | Rejected failure

text \<open>\<open>n || d\<close> on an optional number: an absent value and \<open>0\<close> are both falsy.\<close>

fun or_default :: "nat option \<Rightarrow> nat \<Rightarrow> nat" where
  "or_default None d = d"
| "or_default (Some n) d = (if n = 0 then d else n)"

text \<open>
  \<open>Math.round\<close> rounds to the nearest integer, halves upwards. Numbers are exact
  rationals here: the byte counts of a progress event are far below the range where
  double precision rounds \<open>loaded * 100 / total\<close> across a half.
\<close>

definition js_round :: "rat \<Rightarrow> rat" where
  "js_round x = of_int \<lfloor>x + 1 / 2\<rfloor>"

definition integral :: "rat \<Rightarrow> bool" where
  "integral x = (of_int \<lfloor>x\<rfloor> = x)"

section \<open>Configuration: \<open>IClientConfig\<close> and \<open>IApiCall\<close>\<close>

text \<open>
  Optional sub-objects and optional numbers are \<open>option\<close>s; an optional flag is a
  \<open>bool\<close> (absent reads as false, which is all the code asks of it); an optional callback
  whose result is not used is a \<open>bool\<close> saying whether it is present. The headers, query
  parameters, body, method and interceptors only travel to the transport and are left out.
\<close>

record logging_opts =
  enableLogging :: bool
  logLevel :: "string option"
  logFunction :: bool

record retry_opts =
  enableRetry :: bool
  maxRetryCount :: "nat option"
  retryInterval :: "nat option"
  retryCondition :: "(failure \<Rightarrow> bool) option"

record progress_opts =
  progressMode :: "string option"
  progressInterval :: "nat option"
  onUploadProgress :: bool
  onDownloadProgress :: bool

record preferences =
  baseUrl :: string
  onException :: bool
  logging :: "logging_opts option"
  retry :: "retry_opts option"
  progressPrefs :: "progress_opts option"

record config =
  path :: "string option"
  refresh :: "nat option"
  ttl :: "int option"

section \<open>The state cells of one hook instance\<close>

text \<open>
  One field per \<open>useState\<close> cell, with the initial values of the source. Timer handles
  and cancel sources are positive numbers (truthy, as the handles of \<open>setInterval\<close> are).
\<close>

record state =
  response :: jsval
  loading :: bool
  error :: "failure option"
  source :: "nat option"
  cache :: jsval
  cacheTime :: int
  intervalId :: "nat option"
  uploadProgress :: rat
  downloadProgress :: rat
  progress :: rat
  progressUpdateInterval :: "nat option"
  retryCount :: nat

definition initial_state :: state where
  "initial_state =
     \<lparr>response = JNull, loading = False, error = None, source = None, cache = JNull,
      cacheTime = 0, intervalId = None, uploadProgress = 0, downloadProgress = 0,
      progress = 0, progressUpdateInterval = None, retryCount = 0\<rparr>"

section \<open>The world outside the cells: timers and observable calls\<close>

datatype job = ProgressTick | PollRequest | RetryRequest

record timer =
  tid :: nat
  period :: nat
  recurring :: bool
  job :: job

record progress_event =
  loaded :: nat
  total :: "nat option"

datatype event =
    SinkCall string string
  | ConsoleLog string
  | TransportCall string nat
  | ExceptionCallback failure
  | UploadCallback progress_event
  | DownloadCallback progress_event
  | SourceCancel nat

record world =
  st :: state
  timers :: "timer list"
  next_handle :: nat
  trace :: "event list"

definition initial_world :: world where
  "initial_world = \<lparr>st = initial_state, timers = [], next_handle = 1, trace = []\<rparr>"

definition emit :: "event \<Rightarrow> world \<Rightarrow> world" where
  "emit ev w = w\<lparr>trace := trace w @ [ev]\<rparr>"

definition setInterval :: "job \<Rightarrow> nat \<Rightarrow> world \<Rightarrow> nat \<times> world" where
  "setInterval j ms w =
     (next_handle w,
      w\<lparr>timers := timers w @ [\<lparr>tid = next_handle w, period = ms, recurring = True, job = j\<rparr>],
        next_handle := Suc (next_handle w)\<rparr>)"

definition setTimeout :: "job \<Rightarrow> nat \<Rightarrow> world \<Rightarrow> nat \<times> world" where
  "setTimeout j ms w =
     (next_handle w,
      w\<lparr>timers := timers w @ [\<lparr>tid = next_handle w, period = ms, recurring = False, job = j\<rparr>],
        next_handle := Suc (next_handle w)\<rparr>)"

definition clearInterval :: "nat \<Rightarrow> world \<Rightarrow> world" where
  "clearInterval h w = w\<lparr>timers := filter (\<lambda>t. tid t \<noteq> h) (timers w)\<rparr>"

definition new_source :: "world \<Rightarrow> nat \<times> world" where
  "new_source w = (next_handle w, w\<lparr>next_handle := Suc (next_handle w)\<rparr>)"

subsection \<open>The setters of the cells\<close>

definition setResponse :: "jsval \<Rightarrow> world \<Rightarrow> world" where
  "setResponse v w = w\<lparr>st := (st w)\<lparr>response := v\<rparr>\<rparr>"

definition setLoading :: "bool \<Rightarrow> world \<Rightarrow> world" where
  "setLoading v w = w\<lparr>st := (st w)\<lparr>loading := v\<rparr>\<rparr>"

definition setError :: "failure option \<Rightarrow> world \<Rightarrow> world" where
  "setError v w = w\<lparr>st := (st w)\<lparr>error := v\<rparr>\<rparr>"

definition setSource :: "nat option \<Rightarrow> world \<Rightarrow> world" where
  "setSource v w = w\<lparr>st := (st w)\<lparr>source := v\<rparr>\<rparr>"

definition setCache :: "jsval \<Rightarrow> world \<Rightarrow> world" where
  "setCache v w = w\<lparr>st := (st w)\<lparr>cache := v\<rparr>\<rparr>"

definition setCacheTime :: "int \<Rightarrow> world \<Rightarrow> world" where
  "setCacheTime v w = w\<lparr>st := (st w)\<lparr>cacheTime := v\<rparr>\<rparr>"

definition setIntervalId :: "nat option \<Rightarrow> world \<Rightarrow> world" where
  "setIntervalId v w = w\<lparr>st := (st w)\<lparr>intervalId := v\<rparr>\<rparr>"

definition setUploadProgress :: "rat \<Rightarrow> world \<Rightarrow> world" where
  "setUploadProgress v w = w\<lparr>st := (st w)\<lparr>uploadProgress := v\<rparr>\<rparr>"

definition setDownloadProgress :: "rat \<Rightarrow> world \<Rightarrow> world" where
  "setDownloadProgress v w = w\<lparr>st := (st w)\<lparr>downloadProgress := v\<rparr>\<rparr>"

definition setProgress :: "rat \<Rightarrow> world \<Rightarrow> world" where
  "setProgress v w = w\<lparr>st := (st w)\<lparr>progress := v\<rparr>\<rparr>"

definition setProgressUpdateInterval :: "nat option \<Rightarrow> world \<Rightarrow> world" where
  "setProgressUpdateInterval v w = w\<lparr>st := (st w)\<lparr>progressUpdateInterval := v\<rparr>\<rparr>"

definition setRetryCount :: "nat \<Rightarrow> world \<Rightarrow> world" where
  "setRetryCount v w = w\<lparr>st := (st w)\<lparr>retryCount := v\<rparr>\<rparr>"

section \<open>The functions of the hook\<close>

text \<open>
  Every function of the hook is a closure of one render: where its body reads a cell
  (\<open>retryCount\<close>, \<open>cache\<close>, \<open>intervalId\<close>, ...) it reads the constant that render bound, and
  where it calls a setter it writes the live cell. So each function below takes the
  snapshot \<open>snap\<close> it reads from and the world it writes to. A call made through the
  accessors of the latest render has \<open>snap = st w\<close>.
\<close>

subsection \<open>\<open>logger\<close>\<close>

definition shouldLog :: "string option \<Rightarrow> string \<Rightarrow> bool" where
  "shouldLog configured level =
     (if configured = Some ''debug'' then True
      else if configured = Some ''info''
        then level = ''info'' \<or> level = ''warn'' \<or> level = ''error''
      else if configured = Some ''warn'' then level = ''warn'' \<or> level = ''error''
      else if configured = Some ''error'' then level = ''error''
      else False)"

definition logger :: "preferences \<Rightarrow> string \<Rightarrow> string \<Rightarrow> world \<Rightarrow> world" where
  "logger P level message w =
     (case logging P of
        None \<Rightarrow> w
      | Some lg \<Rightarrow>
          if \<not> enableLogging lg then w
          else if \<not> shouldLog (logLevel lg) level then w
          else if logFunction lg then emit (SinkCall level message) w
          else emit (ConsoleLog (''['' @ level @ ''] '' @ message)) w)"

subsection \<open>\<open>updateProgress\<close> and \<open>triggerProgressChange\<close>\<close>

definition updateProgress ::
  "progress_event \<Rightarrow> (rat \<Rightarrow> world \<Rightarrow> world) \<Rightarrow> (progress_event \<Rightarrow> event) option \<Rightarrow>
   world \<Rightarrow> world" where
  "updateProgress ev setter callback w =
     (case total ev of
        None \<Rightarrow> w
      | Some t \<Rightarrow>
          if t = 0 then w
          else
            let percentCompleted = js_round (of_nat (loaded ev * 100) / of_nat t);
                w1 = setter percentCompleted w
            in (case callback of None \<Rightarrow> w1 | Some cb \<Rightarrow> emit (cb ev) w1))"

text \<open>The two progress handlers handed to the transport.\<close>

definition uploadHandler :: "preferences \<Rightarrow> progress_event \<Rightarrow> world \<Rightarrow> world" where
  "uploadHandler P ev w =
     updateProgress ev setUploadProgress
       (case progressPrefs P of
          None \<Rightarrow> None
        | Some pc \<Rightarrow> if onUploadProgress pc then Some UploadCallback else None) w"

definition downloadHandler :: "preferences \<Rightarrow> progress_event \<Rightarrow> world \<Rightarrow> world" where
  "downloadHandler P ev w =
     updateProgress ev setDownloadProgress
       (case progressPrefs P of
          None \<Rightarrow> None
        | Some pc \<Rightarrow> if onDownloadProgress pc then Some DownloadCallback else None) w"

definition triggerProgressChange :: "preferences \<Rightarrow> state \<Rightarrow> world \<Rightarrow> world" where
  "triggerProgressChange P snap w =
     (case progressPrefs P of
        None \<Rightarrow> w
      | Some pc \<Rightarrow>
          if progressMode pc = Some ''upload'' then setProgress (uploadProgress snap) w
          else if progressMode pc = Some ''download'' then setProgress (downloadProgress snap) w
          else setProgress ((uploadProgress snap + downloadProgress snap) / 2) w)"

subsection \<open>\<open>request\<close>\<close>

definition path_text :: "config \<Rightarrow> string" where
  "path_text C = (case path C of None \<Rightarrow> ''undefined'' | Some p \<Rightarrow> p)"

definition url :: "preferences \<Rightarrow> config \<Rightarrow> string" where
  "url P C = baseUrl P @ path_text C"

text \<open>\<open>config.ttl && cache && cacheTime + config.ttl > Date.now()\<close>\<close>

definition cache_fresh :: "config \<Rightarrow> state \<Rightarrow> int \<Rightarrow> bool" where
  "cache_fresh C snap now =
     (case ttl C of
        None \<Rightarrow> False
      | Some t \<Rightarrow> t \<noteq> 0 \<and> truthy (cache snap) \<and> cacheTime snap + t > now)"

text \<open>\<open>retryCount < (preferences.retry?.maxRetryCount || 3)\<close> behind \<open>enableRetry\<close>.\<close>

definition max_retries :: "preferences \<Rightarrow> nat" where
  "max_retries P =
     (case retry P of None \<Rightarrow> 3 | Some r \<Rightarrow> or_default (maxRetryCount r) 3)"

definition may_retry :: "preferences \<Rightarrow> state \<Rightarrow> bool" where
  "may_retry P snap =
     (case retry P of
        None \<Rightarrow> False
      | Some r \<Rightarrow> enableRetry r \<and> retryCount snap < max_retries P)"

text \<open>The sampling timer armed at the start of a request.\<close>

definition arm_progress_sampling :: "preferences \<Rightarrow> state \<Rightarrow> world \<Rightarrow> world" where
  "arm_progress_sampling P snap w =
     (case progressPrefs P of
        None \<Rightarrow> w
      | Some pc \<Rightarrow>
          (case progressInterval pc of
             None \<Rightarrow> w
           | Some ms \<Rightarrow>
               if ms = 0 then w
               else
                 let w1 = (case progressUpdateInterval snap of
                             None \<Rightarrow> w
                           | Some h \<Rightarrow> clearInterval h w);
                     (h, w2) = setInterval ProgressTick (or_default (Some ms) 100) w1
                 in setProgressUpdateInterval (Some h) w2))"

text \<open>The outer \<open>finally\<close>.\<close>

definition request_finally :: "state \<Rightarrow> world \<Rightarrow> world" where
  "request_finally snap w =
     (let w1 = setLoading False w
      in case progressUpdateInterval snap of
           None \<Rightarrow> w1
         | Some h \<Rightarrow> clearInterval h w1)"

text \<open>The outer \<open>catch\<close>.\<close>

definition request_failed :: "preferences \<Rightarrow> failure \<Rightarrow> world \<Rightarrow> world" where
  "request_failed P e w =
     (let w1 = setError (Some e) w
      in if onException P then emit (ExceptionCallback e) w1 else w1)"

text \<open>After the \<open>await\<close>, when the transport resolved.\<close>

definition request_resolved :: "preferences \<Rightarrow> config \<Rightarrow> jsval \<Rightarrow> int \<Rightarrow> world \<Rightarrow> world" where
  "request_resolved P C d now w =
     (let w1 = logger P ''info'' (''Request to '' @ url P C @ '' completed'') w;
          w2 = (case ttl C of
                  None \<Rightarrow> w1
                | Some t \<Rightarrow> if t = 0 then w1 else setCacheTime now (setCache d w1))
      in setResponse d w2)"

text \<open>
  The inner \<open>catch\<close>: the world it leaves and the error it throws on, if any.
\<close>

definition request_rejected ::
  "preferences \<Rightarrow> config \<Rightarrow> state \<Rightarrow> failure \<Rightarrow> world \<Rightarrow> world \<times> failure option" where
  "request_rejected P C snap e w =
     (if isCancel e then (w, None)
      else
        let w1 = logger P ''error'' (''Request to '' @ url P C @ '' failed'') w
        in if may_retry P snap then
             (case retry P of
                None \<Rightarrow> (w1, None)
              | Some r \<Rightarrow>
                  (case retryCondition r of
                     None \<Rightarrow> (w1, None)
                   | Some cond \<Rightarrow>
                       if \<not> cond e then (w1, Some e)
                       else
                         let w2 = setRetryCount (retryCount snap + 1) w1
                         in (snd (setTimeout RetryRequest (or_default (retryInterval r) 1000) w2),
                             None)))
           else (setRetryCount 0 w1, Some e))"

text \<open>
  \<open>request\<close> up to its \<open>await\<close>. The second component is the cancel source of the
  transport call that is now in flight, or \<open>None\<close> when the cache answered and the
  function has already run to its end.
\<close>

definition request_begin ::
  "preferences \<Rightarrow> config \<Rightarrow> state \<Rightarrow> int \<Rightarrow> world \<Rightarrow> world \<times> nat option" where
  "request_begin P C snap now w =
     (let w1 = logger P ''info'' (''Making request to '' @ url P C) w;
          w2 = setLoading True w1;
          w3 = setError None w2;
          w4 = setProgress 0 w3;
          w5 = setUploadProgress 0 w4;
          w6 = setDownloadProgress 0 w5;
          w7 = arm_progress_sampling P snap w6;
          (tok, w8) = new_source w7;
          w9 = setSource (Some tok) w8
      in if cache_fresh C snap now then (request_finally snap w9, None)
         else (emit (TransportCall (url P C) tok) w9, Some tok))"

text \<open>\<open>request\<close> from the completion of the transport call to its end.\<close>

definition request_end ::
  "preferences \<Rightarrow> config \<Rightarrow> state \<Rightarrow> outcome \<Rightarrow> int \<Rightarrow> world \<Rightarrow> world" where
  "request_end P C snap out now w =
     (let (w1, thrown) = (case out of
                            Resolved d \<Rightarrow> (request_resolved P C d now w, None)
                          | Rejected e \<Rightarrow> request_rejected P C snap e w);
          w2 = setSource None w1;
          w3 = (case thrown of None \<Rightarrow> w2 | Some e \<Rightarrow> request_failed P e w2)
      in request_finally snap w3)"

text \<open>
  A whole run of \<open>request\<close> with nothing else happening during the \<open>await\<close>: \<open>out\<close> is what
  the transport answers if it is called, \<open>now\<close> and \<open>later\<close> are the readings of
  \<open>Date.now()\<close> before and after.
\<close>

definition request ::
  "preferences \<Rightarrow> config \<Rightarrow> state \<Rightarrow> int \<Rightarrow> outcome \<Rightarrow> int \<Rightarrow> world \<Rightarrow> world" where
  "request P C snap now out later w =
     (case request_begin P C snap now w of
        (w1, None) \<Rightarrow> w1
      | (w1, Some tok) \<Rightarrow> request_end P C snap out later w1)"

definition fetch ::
  "preferences \<Rightarrow> config \<Rightarrow> state \<Rightarrow> int \<Rightarrow> outcome \<Rightarrow> int \<Rightarrow> world \<Rightarrow> world" where
  "fetch P C snap now out later w = request P C snap now out later w"

subsection \<open>\<open>cancel\<close>, \<open>startPolling\<close>, \<open>stopPolling\<close>\<close>

definition cancel :: "state \<Rightarrow> world \<Rightarrow> world" where
  "cancel snap w = (case source snap of None \<Rightarrow> w | Some tok \<Rightarrow> emit (SourceCancel tok) w)"

definition stopPolling :: "state \<Rightarrow> world \<Rightarrow> world" where
  "stopPolling snap w =
     (case intervalId snap of
        None \<Rightarrow> w
      | Some h \<Rightarrow> setIntervalId None (clearInterval h w))"

definition startPolling :: "config \<Rightarrow> state \<Rightarrow> world \<Rightarrow> world" where
  "startPolling C snap w =
     (case refresh C of
        None \<Rightarrow> w
      | Some ms \<Rightarrow>
          if ms = 0 then w
          else
            let w1 = stopPolling snap w;
                (h, w2) = setInterval PollRequest ms w1
            in setIntervalId (Some h) w2)"

section \<open>Observations\<close>

fun is_transport_call :: "event \<Rightarrow> bool" where
  "is_transport_call (TransportCall _ _) = True"
| "is_transport_call _ = False"

fun reported :: "event \<Rightarrow> failure list" where
  "reported (ExceptionCallback e) = [e]"
| "reported _ = []"

text \<open>How often the transport was invoked, and what \<open>onException\<close> was called with.\<close>

definition transport_calls :: "world \<Rightarrow> nat" where
  "transport_calls w = length (filter is_transport_call (trace w))"

definition exception_calls :: "world \<Rightarrow> failure list" where
  "exception_calls w = concat (map reported (trace w))"

definition retry_timers :: "world \<Rightarrow> timer list" where
  "retry_timers w = filter (\<lambda>t. job t = RetryRequest) (timers w)"

definition poll_timers :: "world \<Rightarrow> timer list" where
  "poll_timers w = filter (\<lambda>t. job t = PollRequest) (timers w)"

section \<open>Tests of the configuration\<close>

text \<open>
  The truthiness tests the code makes on the configuration, named so that statements
  about \<open>request\<close> and \<open>startPolling\<close> can refer to them:
  \<open>preferences.progress && preferences.progress.progressInterval\<close>, \<open>config.ttl\<close>,
  \<open>config.refresh\<close>, and what a configured \<open>retryCondition\<close> answers.
\<close>

definition sampling_on :: "preferences \<Rightarrow> bool" where
  "sampling_on P =
     (case progressPrefs P of
        None \<Rightarrow> False
      | Some pc \<Rightarrow> (case progressInterval pc of None \<Rightarrow> False | Some ms \<Rightarrow> ms \<noteq> 0))"

definition caching :: "config \<Rightarrow> bool" where
  "caching C = (case ttl C of None \<Rightarrow> False | Some t \<Rightarrow> t \<noteq> 0)"

definition polling_on :: "config \<Rightarrow> bool" where
  "polling_on C = (case refresh C of None \<Rightarrow> False | Some ms \<Rightarrow> ms \<noteq> 0)"

definition condition_accepts :: "preferences \<Rightarrow> failure \<Rightarrow> bool" where
  "condition_accepts P e =
     (case retry P of
        None \<Rightarrow> False
      | Some r \<Rightarrow> (case retryCondition r of None \<Rightarrow> False | Some cond \<Rightarrow> cond e))"

definition condition_rejects :: "preferences \<Rightarrow> failure \<Rightarrow> bool" where
  "condition_rejects P e =
     (case retry P of
        None \<Rightarrow> False
      | Some r \<Rightarrow> (case retryCondition r of None \<Rightarrow> False | Some cond \<Rightarrow> \<not> cond e))"

text \<open>
  What one call of \<open>logger\<close> hands to the sink (nothing, or one call), the timers left
  after \<open>clearInterval\<close> on the sampling handle a closure holds, and the cancel source a
  request creates (it follows the sampling timer's handle, if one is armed).
\<close>

definition log_events :: "preferences \<Rightarrow> string \<Rightarrow> string \<Rightarrow> event list" where
  "log_events P level message =
     drop (length (trace initial_world)) (trace (logger P level message initial_world))"

definition cleared :: "state \<Rightarrow> timer list \<Rightarrow> timer list" where
  "cleared snap ts =
     (case progressUpdateInterval snap of
        None \<Rightarrow> ts
      | Some h \<Rightarrow> filter (\<lambda>t. tid t \<noteq> h) ts)"

definition source_handle :: "preferences \<Rightarrow> world \<Rightarrow> nat" where
  "source_handle P w = (if sampling_on P then Suc (next_handle w) else next_handle w)"

subsection \<open>The level filter as the specification words it\<close>

text \<open>
  The specification of the logger: nothing is logged unless logging is enabled; \<open>debug\<close>
  logs everything, \<open>info\<close> logs info, warn and error, \<open>warn\<close> logs warn and error,
  \<open>error\<close> logs error only, any other configured level logs nothing; a custom sink
  receives \<open>(level, message)\<close>, otherwise the message goes to the default output
  prefixed with \<open>[level]\<close>. These definitions follow those words, not the code; C9
  compares \<open>logger\<close> with them.
\<close>

definition logging_enabled :: "preferences \<Rightarrow> bool" where
  "logging_enabled P = (case logging P of None \<Rightarrow> False | Some lg \<Rightarrow> enableLogging lg)"

definition configured_level :: "preferences \<Rightarrow> string option" where
  "configured_level P = (case logging P of None \<Rightarrow> None | Some lg \<Rightarrow> logLevel lg)"

definition sink_event :: "preferences \<Rightarrow> string \<Rightarrow> string \<Rightarrow> event" where
  "sink_event P level message =
     (case logging P of
        None \<Rightarrow> ConsoleLog (''['' @ level @ ''] '' @ message)
      | Some lg \<Rightarrow>
          if logFunction lg then SinkCall level message
          else ConsoleLog (''['' @ level @ ''] '' @ message))"

definition spec_levels :: "(string \<times> string list) list" where
  "spec_levels =
     [(''info'', [''info'', ''warn'', ''error'']),
      (''warn'', [''warn'', ''error'']),
      (''error'', [''error''])]"

definition spec_admits :: "string option \<Rightarrow> string \<Rightarrow> bool" where
  "spec_admits configured level =
     (case configured of
        None \<Rightarrow> False
      | Some c \<Rightarrow>
          c = ''debug'' \<or>
          (case map_of spec_levels c of None \<Rightarrow> False | Some ls \<Rightarrow> level \<in> set ls))"

subsection \<open>Example configurations\<close>

definition plain_prefs :: preferences where
  "plain_prefs =
     \<lparr>baseUrl = ''http://example.com'', onException = True, logging = None, retry = None,
      progressPrefs = None\<rparr>"

definition plain_call :: config where
  "plain_call = \<lparr>path = Some ''/'', refresh = None, ttl = None\<rparr>"

definition cached_call :: config where
  "cached_call = \<lparr>path = Some ''/'', refresh = None, ttl = Some 60000\<rparr>"

definition polled_call :: config where
  "polled_call = \<lparr>path = Some ''/'', refresh = Some 1000, ttl = None\<rparr>"

definition warn_sink :: preferences where
  "warn_sink =
     \<lparr>baseUrl = ''http://example.com'', onException = False,
      logging = Some \<lparr>enableLogging = True, logLevel = Some ''warn'', logFunction = True\<rparr>,
      retry = None, progressPrefs = None\<rparr>"

definition sampling_both :: preferences where
  "sampling_both =
     \<lparr>baseUrl = ''http://example.com'', onException = False, logging = None, retry = None,
      progressPrefs = Some \<lparr>progressMode = Some ''both'', progressInterval = Some 100,
                            onUploadProgress = False, onDownloadProgress = False\<rparr>\<rparr>"

text \<open>
  Retry enabled with \<open>maxRetryCount = 3\<close>: without a condition, with one that declines
  every failure, with one that accepts every failure.
\<close>

definition retry_unconditional :: preferences where
  "retry_unconditional =
     plain_prefs\<lparr>retry := Some \<lparr>enableRetry = True, maxRetryCount = Some 3,
                                  retryInterval = None, retryCondition = None\<rparr>\<rparr>"

definition retry_never :: preferences where
  "retry_never =
     plain_prefs\<lparr>retry := Some \<lparr>enableRetry = True, maxRetryCount = Some 3,
                                  retryInterval = None, retryCondition = Some (\<lambda>e. False)\<rparr>\<rparr>"

definition retry_always :: preferences where
  "retry_always =
     plain_prefs\<lparr>retry := Some \<lparr>enableRetry = True, maxRetryCount = Some 3,
                                  retryInterval = None, retryCondition = Some (\<lambda>e. True)\<rparr>\<rparr>"

subsection \<open>The worlds one hook instance can reach\<close>

text \<open>
  The transport is taken to report no more bytes loaded than the total it announces.
\<close>

definition plausible :: "progress_event \<Rightarrow> bool" where
  "plausible ev = (case total ev of None \<Rightarrow> True | Some t \<Rightarrow> loaded ev \<le> t)"

text \<open>
  A run of one hook instance is a sequence of calls of its functions and callbacks, each
  a closure of some earlier render. The state a render binds is the state of the world at
  that render, so in every step below the snapshot is the state of a reachable world.
  The relation allows any such snapshot and any order of steps, hence it contains every
  world a real run passes through, and what holds of all reachable worlds holds in every
  run.
\<close>

inductive reachable :: "preferences \<Rightarrow> config \<Rightarrow> world \<Rightarrow> bool" for P C where
  start: "reachable P C initial_world"
| begun: "reachable P C w \<Longrightarrow> reachable P C v \<Longrightarrow>
    reachable P C (fst (request_begin P C (st v) now w))"
| ended: "reachable P C w \<Longrightarrow> reachable P C v \<Longrightarrow>
    reachable P C (request_end P C (st v) out now w)"
| uploaded: "reachable P C w \<Longrightarrow> plausible ev \<Longrightarrow> reachable P C (uploadHandler P ev w)"
| downloaded: "reachable P C w \<Longrightarrow> plausible ev \<Longrightarrow> reachable P C (downloadHandler P ev w)"
| ticked: "reachable P C w \<Longrightarrow> reachable P C v \<Longrightarrow>
    reachable P C (triggerProgressChange P (st v) w)"
| cancelled: "reachable P C w \<Longrightarrow> reachable P C v \<Longrightarrow> reachable P C (cancel (st v) w)"
| resumed: "reachable P C w \<Longrightarrow> reachable P C v \<Longrightarrow>
    reachable P C (startPolling C (st v) w)"
| paused: "reachable P C w \<Longrightarrow> reachable P C v \<Longrightarrow> reachable P C (stopPolling (st v) w)"

text \<open>A percentage: an integer from 0 to 100.\<close>

definition percentage :: "rat \<Rightarrow> bool" where
  "percentage x = (integral x \<and> 0 \<le> x \<and> x \<le> 100)"

subsection \<open>Example runs\<close>

text \<open>
  A first \<open>fetch()\<close> under a TTL of a minute whose response body is the number 0, and a
  second \<open>fetch()\<close> through the next render, 10 ms later.
\<close>

definition zero_cached :: world where
  "zero_cached = fetch plain_prefs cached_call initial_state 0 (Resolved (JNum 0)) 10 initial_world"

definition zero_refetched :: world where
  "zero_refetched =
     fetch plain_prefs cached_call (st zero_cached) 20 (Resolved (JNum 0)) 30 zero_cached"

text \<open>The same with an object as response body.\<close>

definition object_cached :: world where
  "object_cached =
     fetch plain_prefs cached_call initial_state 0 (Resolved (JObj 1)) 10 initial_world"

text \<open>
  A second \<open>fetch()\<close> through the accessors of the first render, whose closure still holds
  the empty cache.
\<close>

definition object_refetched_stale :: world where
  "object_refetched_stale =
     fetch plain_prefs cached_call initial_state 20 (Resolved (JObj 1)) 30 object_cached"

text \<open>
  A first request with progress sampling in mode \<open>both\<close>, in flight: the transport has
  reported 40 of 100 bytes sent and 60 of 100 bytes received. Then the sampling timer
  fires; \<open>request\<close> armed it with \<open>triggerProgressChange\<close> of the render that called
  \<open>request\<close>, the first.
\<close>

definition sampling_in_flight :: world where
  "sampling_in_flight =
     downloadHandler sampling_both \<lparr>loaded = 60, total = Some 100\<rparr>
       (uploadHandler sampling_both \<lparr>loaded = 40, total = Some 100\<rparr>
          (fst (request_begin sampling_both plain_call initial_state 0 initial_world)))"

definition sampled_in_flight :: world where
  "sampled_in_flight = triggerProgressChange sampling_both initial_state sampling_in_flight"

text \<open>
  A first request that fails and is retried (the condition accepts every failure); the
  retry, run by the timer with the closure that armed it, succeeds.
\<close>

definition failed_once :: world where
  "failed_once =
     request retry_always plain_call initial_state 0 (Rejected (Failure 7)) 5 initial_world"

definition retry_succeeded :: world where
  "retry_succeeded =
     request retry_always plain_call initial_state 1005 (Resolved (JObj 1)) 1010 failed_once"

text \<open>
  A download that breaks off after one byte of three, and the next \<open>fetch()\<close> through the
  render that shows the failure: its sampling timer runs with the counters of that render.
\<close>

definition broken_download :: world where
  "broken_download =
     request_end sampling_both plain_call initial_state (Rejected (Failure 7)) 5
       (downloadHandler sampling_both \<lparr>loaded = 1, total = Some 3\<rparr>
          (fst (request_begin sampling_both plain_call initial_state 0 initial_world)))"

definition sampled_after_failure :: world where
  "sampled_after_failure =
     triggerProgressChange sampling_both (st broken_download)
       (fst (request_begin sampling_both plain_call (st broken_download) 10 broken_download))"

text \<open>\<open>polling.resume()\<close> twice through the accessors of the first render.\<close>

definition resumed_once :: world where
  "resumed_once = startPolling polled_call initial_state initial_world"

definition resumed_twice :: world where
  "resumed_twice = startPolling polled_call initial_state resumed_once"

text \<open>A retry policy whose \<open>maxRetryCount\<close> is 0, and a first request failing under it.\<close>

definition retry_zero_max :: preferences where
  "retry_zero_max =
     plain_prefs\<lparr>retry := Some \<lparr>enableRetry = True, maxRetryCount = Some 0,
                                  retryInterval = None, retryCondition = Some (\<lambda>e. True)\<rparr>\<rparr>"

definition failed_under_zero_max :: world where
  "failed_under_zero_max =
     request retry_zero_max plain_call initial_state 0 (Rejected (Failure 7)) 5 initial_world"

section \<open>How the functions act on the parts of the world\<close>

lemmas setter_defs = setResponse_def setLoading_def setError_def setSource_def setCache_def
  setCacheTime_def setIntervalId_def setUploadProgress_def setDownloadProgress_def
  setProgress_def setProgressUpdateInterval_def setRetryCount_def

lemma setters_trace [simp]:
  "trace (setResponse a w) = trace w" "trace (setLoading b w) = trace w"
  "trace (setError c w) = trace w" "trace (setSource d w) = trace w"
  "trace (setCache a w) = trace w" "trace (setCacheTime i w) = trace w"
  "trace (setIntervalId d w) = trace w" "trace (setUploadProgress r w) = trace w"
  "trace (setDownloadProgress r w) = trace w" "trace (setProgress r w) = trace w"
  "trace (setProgressUpdateInterval d w) = trace w" "trace (setRetryCount n w) = trace w"
  by (simp_all add: setter_defs)

lemma setters_timers [simp]:
  "timers (setResponse a w) = timers w" "timers (setLoading b w) = timers w"
  "timers (setError c w) = timers w" "timers (setSource d w) = timers w"
  "timers (setCache a w) = timers w" "timers (setCacheTime i w) = timers w"
  "timers (setIntervalId d w) = timers w" "timers (setUploadProgress r w) = timers w"
  "timers (setDownloadProgress r w) = timers w" "timers (setProgress r w) = timers w"
  "timers (setProgressUpdateInterval d w) = timers w" "timers (setRetryCount n w) = timers w"
  by (simp_all add: setter_defs)

lemma setters_next_handle [simp]:
  "next_handle (setResponse a w) = next_handle w" "next_handle (setLoading b w) = next_handle w"
  "next_handle (setError c w) = next_handle w" "next_handle (setSource d w) = next_handle w"
  "next_handle (setCache a w) = next_handle w" "next_handle (setCacheTime i w) = next_handle w"
  "next_handle (setIntervalId d w) = next_handle w"
  "next_handle (setUploadProgress r w) = next_handle w"
  "next_handle (setDownloadProgress r w) = next_handle w"
  "next_handle (setProgress r w) = next_handle w"
  "next_handle (setProgressUpdateInterval d w) = next_handle w"
  "next_handle (setRetryCount n w) = next_handle w"
  by (simp_all add: setter_defs)

lemma setters_st [simp]:
  "st (setResponse a w) = (st w)\<lparr>response := a\<rparr>" "st (setLoading b w) = (st w)\<lparr>loading := b\<rparr>"
  "st (setError c w) = (st w)\<lparr>error := c\<rparr>" "st (setSource d w) = (st w)\<lparr>source := d\<rparr>"
  "st (setCache a w) = (st w)\<lparr>cache := a\<rparr>" "st (setCacheTime i w) = (st w)\<lparr>cacheTime := i\<rparr>"
  "st (setIntervalId d w) = (st w)\<lparr>intervalId := d\<rparr>"
  "st (setUploadProgress r w) = (st w)\<lparr>uploadProgress := r\<rparr>"
  "st (setDownloadProgress r w) = (st w)\<lparr>downloadProgress := r\<rparr>"
  "st (setProgress r w) = (st w)\<lparr>progress := r\<rparr>"
  "st (setProgressUpdateInterval d w) = (st w)\<lparr>progressUpdateInterval := d\<rparr>"
  "st (setRetryCount n w) = (st w)\<lparr>retryCount := n\<rparr>"
  by (simp_all add: setter_defs)

lemma emit_parts [simp]:
  "st (emit ev w) = st w" "timers (emit ev w) = timers w"
  "next_handle (emit ev w) = next_handle w" "trace (emit ev w) = trace w @ [ev]"
  by (simp_all add: emit_def)

lemma clearInterval_parts [simp]:
  "st (clearInterval h w) = st w" "trace (clearInterval h w) = trace w"
  "next_handle (clearInterval h w) = next_handle w"
  "timers (clearInterval h w) = filter (\<lambda>t. tid t \<noteq> h) (timers w)"
  by (simp_all add: clearInterval_def)

lemma setInterval_parts [simp]:
  "fst (setInterval j ms w) = next_handle w"
  "st (snd (setInterval j ms w)) = st w" "trace (snd (setInterval j ms w)) = trace w"
  "next_handle (snd (setInterval j ms w)) = Suc (next_handle w)"
  "timers (snd (setInterval j ms w)) =
     timers w @ [\<lparr>tid = next_handle w, period = ms, recurring = True, job = j\<rparr>]"
  by (simp_all add: setInterval_def)

lemma setTimeout_parts [simp]:
  "fst (setTimeout j ms w) = next_handle w"
  "st (snd (setTimeout j ms w)) = st w" "trace (snd (setTimeout j ms w)) = trace w"
  "next_handle (snd (setTimeout j ms w)) = Suc (next_handle w)"
  "timers (snd (setTimeout j ms w)) =
     timers w @ [\<lparr>tid = next_handle w, period = ms, recurring = False, job = j\<rparr>]"
  by (simp_all add: setTimeout_def)

lemma new_source_parts [simp]:
  "fst (new_source w) = next_handle w"
  "st (snd (new_source w)) = st w" "trace (snd (new_source w)) = trace w"
  "next_handle (snd (new_source w)) = Suc (next_handle w)"
  "timers (snd (new_source w)) = timers w"
  by (simp_all add: new_source_def)

lemma logger_parts [simp]:
  "st (logger P level message w) = st w" "timers (logger P level message w) = timers w"
  "next_handle (logger P level message w) = next_handle w"
  by (simp_all add: logger_def split: option.split)

lemma trace_logger: "trace (logger P level message w) = trace w @ log_events P level message"
  by (simp add: logger_def log_events_def initial_world_def split: option.split)

lemma log_events_kind:
  "ev \<in> set (log_events P level message) \<Longrightarrow>
     (\<exists>a b. ev = SinkCall a b) \<or> (\<exists>a. ev = ConsoleLog a)"
  by (auto simp: logger_def log_events_def initial_world_def split: option.splits if_splits)

lemma st_arm:
  "st (arm_progress_sampling P snap w) =
     (if sampling_on P then (st w)\<lparr>progressUpdateInterval := Some (next_handle w)\<rparr> else st w)"
  by (simp add: arm_progress_sampling_def sampling_on_def Let_def split_beta split: option.split)

lemma next_handle_arm:
  "next_handle (arm_progress_sampling P snap w) =
     (if sampling_on P then Suc (next_handle w) else next_handle w)"
  by (simp add: arm_progress_sampling_def sampling_on_def Let_def split_beta split: option.split)

lemma trace_arm: "trace (arm_progress_sampling P snap w) = trace w"
  by (simp add: arm_progress_sampling_def Let_def split_beta split: option.split)

lemma set_cleared: "set (cleared snap ts) \<subseteq> set ts"
  by (auto simp: cleared_def split: option.split)

lemma timers_arm:
  "timers (arm_progress_sampling P snap w) =
     (if sampling_on P
      then cleared snap (timers w) @
           [\<lparr>tid = next_handle w, period = the (progressInterval (the (progressPrefs P))),
             recurring = True, job = ProgressTick\<rparr>]
      else timers w)"
  by (simp add: arm_progress_sampling_def sampling_on_def cleared_def Let_def split_beta
      split: option.split)

lemma timers_request_finally: "timers (request_finally snap w) = cleared snap (timers w)"
  by (simp add: request_finally_def cleared_def Let_def split: option.split)

lemma st_request_finally: "st (request_finally snap w) = (st w)\<lparr>loading := False\<rparr>"
  by (simp add: request_finally_def Let_def split: option.split)

lemma trace_request_finally: "trace (request_finally snap w) = trace w"
  by (simp add: request_finally_def Let_def split: option.split)

lemma st_request_failed: "st (request_failed P e w) = (st w)\<lparr>error := Some e\<rparr>"
  by (simp add: request_failed_def Let_def)

lemma trace_request_failed:
  "trace (request_failed P e w) = trace w @ (if onException P then [ExceptionCallback e] else [])"
  by (simp add: request_failed_def Let_def)

lemma timers_request_failed: "timers (request_failed P e w) = timers w"
  by (simp add: request_failed_def Let_def)

lemma st_request_resolved:
  "st (request_resolved P C d now w) =
     (if caching C then (st w)\<lparr>cache := d, cacheTime := now, response := d\<rparr>
      else (st w)\<lparr>response := d\<rparr>)"
  by (simp add: request_resolved_def caching_def Let_def split: option.split)

lemma trace_request_resolved:
  "trace (request_resolved P C d now w) =
     trace w @ log_events P ''info'' (''Request to '' @ url P C @ '' completed'')"
  by (simp add: request_resolved_def Let_def trace_logger split: option.split)

lemma timers_request_resolved: "timers (request_resolved P C d now w) = timers w"
  by (simp add: request_resolved_def Let_def split: option.split)

lemma st_request_rejected:
  "st (fst (request_rejected P C snap e w)) =
     (if isCancel e then st w
      else if may_retry P snap then
        (if condition_accepts P e then (st w)\<lparr>retryCount := retryCount snap + 1\<rparr> else st w)
      else (st w)\<lparr>retryCount := 0\<rparr>)"
  by (simp add: request_rejected_def condition_accepts_def may_retry_def Let_def
      split: option.split)

lemma thrown_request_rejected:
  "snd (request_rejected P C snap e w) =
     (if isCancel e then None
      else if may_retry P snap then (if condition_rejects P e then Some e else None)
      else Some e)"
  by (simp add: request_rejected_def condition_rejects_def may_retry_def Let_def
      split: option.split)

lemma trace_request_rejected:
  "trace (fst (request_rejected P C snap e w)) =
     trace w @ (if isCancel e then []
                else log_events P ''error'' (''Request to '' @ url P C @ '' failed''))"
  by (simp add: request_rejected_def Let_def trace_logger split: option.split)

lemma timers_request_rejected:
  "timers (fst (request_rejected P C snap e w)) =
     timers w @
       (if \<not> isCancel e \<and> may_retry P snap \<and> condition_accepts P e
        then [\<lparr>tid = next_handle w, period = or_default (retryInterval (the (retry P))) 1000,
               recurring = False, job = RetryRequest\<rparr>]
        else [])"
  by (simp add: request_rejected_def condition_accepts_def may_retry_def Let_def
      split: option.split)

lemma st_request_begin:
  "st (fst (request_begin P C snap now w)) =
     (st w)\<lparr>loading := \<not> cache_fresh C snap now, error := None, progress := 0,
            uploadProgress := 0, downloadProgress := 0,
            progressUpdateInterval :=
              (if sampling_on P then Some (next_handle w) else progressUpdateInterval (st w)),
            source := Some (source_handle P w)\<rparr>"
  by (simp add: request_begin_def Let_def split_beta st_arm next_handle_arm st_request_finally
      source_handle_def)

lemma pending_request_begin:
  "snd (request_begin P C snap now w) =
     (if cache_fresh C snap now then None else Some (source_handle P w))"
  by (simp add: request_begin_def Let_def split_beta next_handle_arm source_handle_def)

lemma trace_request_begin:
  "trace (fst (request_begin P C snap now w)) =
     trace w @ log_events P ''info'' (''Making request to '' @ url P C) @
       (if cache_fresh C snap now then [] else [TransportCall (url P C) (source_handle P w)])"
  by (simp add: request_begin_def Let_def split_beta trace_arm trace_logger
      trace_request_finally next_handle_arm source_handle_def)

lemma timers_request_begin:
  "timers (fst (request_begin P C snap now w)) =
     (if cache_fresh C snap now then cleared snap (timers (arm_progress_sampling P snap w))
      else timers (arm_progress_sampling P snap w))"
  by (simp add: request_begin_def Let_def split_beta timers_request_finally
      arm_progress_sampling_def split: option.split)

lemma st_request_end_resolved:
  "st (request_end P C snap (Resolved d) now w) =
     (st (request_resolved P C d now w))\<lparr>source := None, loading := False\<rparr>"
  by (simp add: request_end_def Let_def st_request_finally)

lemma st_request_end_rejected:
  "st (request_end P C snap (Rejected e) now w) =
     (case snd (request_rejected P C snap e w) of
        None \<Rightarrow> (st (fst (request_rejected P C snap e w)))\<lparr>source := None, loading := False\<rparr>
      | Some x \<Rightarrow>
          (st (fst (request_rejected P C snap e w)))
            \<lparr>source := None, error := Some x, loading := False\<rparr>)"
  by (simp add: request_end_def Let_def split_beta st_request_finally st_request_failed
      split: option.split)

lemma trace_request_end_resolved:
  "trace (request_end P C snap (Resolved d) now w) =
     trace w @ log_events P ''info'' (''Request to '' @ url P C @ '' completed'')"
  by (simp add: request_end_def Let_def trace_request_finally trace_request_resolved)

lemma trace_request_end_rejected:
  "trace (request_end P C snap (Rejected e) now w) =
     trace (fst (request_rejected P C snap e w)) @
       (case snd (request_rejected P C snap e w) of
          None \<Rightarrow> []
        | Some x \<Rightarrow> if onException P then [ExceptionCallback x] else [])"
  by (simp add: request_end_def Let_def split_beta trace_request_finally trace_request_failed
      split: option.split)

lemma timers_request_end_resolved:
  "timers (request_end P C snap (Resolved d) now w) = cleared snap (timers w)"
  by (simp add: request_end_def Let_def timers_request_finally timers_request_resolved)

lemma timers_request_end_rejected:
  "timers (request_end P C snap (Rejected e) now w) =
     cleared snap (timers (fst (request_rejected P C snap e w)))"
  by (simp add: request_end_def Let_def split_beta timers_request_finally
      timers_request_failed split: option.split)

lemma request_unfold:
  "request P C snap now out later w =
     (if cache_fresh C snap now then fst (request_begin P C snap now w)
      else request_end P C snap out later (fst (request_begin P C snap now w)))"
  by (simp add: request_def pending_request_begin split: prod.split option.split)
    (metis fst_conv snd_conv pending_request_begin option.distinct(1))

lemma shouldLog_spec: "shouldLog configured level = spec_admits configured level"
  by (cases configured) (auto simp: shouldLog_def spec_admits_def spec_levels_def)

lemma emit_changes: "emit ev w \<noteq> w"
proof
  assume "emit ev w = w"
  then have "length (trace (emit ev w)) = length (trace w)" by simp
  then show False by simp
qed

lemma transport_calls_append:
  "trace w' = trace w @ evs \<Longrightarrow>
     transport_calls w' = transport_calls w + length (filter is_transport_call evs)"
  by (simp add: transport_calls_def)

lemma exception_calls_append:
  "trace w' = trace w @ evs \<Longrightarrow>
     exception_calls w' = exception_calls w @ concat (map reported evs)"
  by (simp add: exception_calls_def)

lemma log_events_quiet [simp]:
  "filter is_transport_call (log_events P level message) = []"
  "concat (map reported (log_events P level message)) = []"
  by (auto simp: filter_empty_conv dest!: log_events_kind)

lemma retry_timers_request_begin:
  "set (retry_timers (fst (request_begin P C snap now w))) \<subseteq> set (retry_timers w)"
  using set_cleared[of snap "timers w"]
    set_cleared[of snap "cleared snap (timers w) @
           [\<lparr>tid = next_handle w, period = the (progressInterval (the (progressPrefs P))),
             recurring = True, job = ProgressTick\<rparr>]"]
    set_cleared[of snap "timers w"]
  by (auto simp: retry_timers_def timers_request_begin timers_arm)

lemma retry_timers_request_end_quiet:
  "isCancel e \<or> \<not> may_retry P snap \<or> \<not> condition_accepts P e \<Longrightarrow>
     set (retry_timers (request_end P C snap (Rejected e) now w)) \<subseteq> set (retry_timers w)"
  using set_cleared[of snap "timers w"]
  by (auto simp: retry_timers_def timers_request_end_rejected timers_request_rejected)

lemma retry_timers_request_end_resolved:
  "set (retry_timers (request_end P C snap (Resolved d) now w)) \<subseteq> set (retry_timers w)"
  using set_cleared[of snap "timers w"]
  by (auto simp: retry_timers_def timers_request_end_resolved)

lemma transport_calls_request_begin:
  "transport_calls (fst (request_begin P C snap now w)) =
     transport_calls w + (if cache_fresh C snap now then 0 else 1)"
  using transport_calls_append[OF trace_request_begin[of P C snap now w]]
  by simp

lemma exception_calls_request_begin:
  "exception_calls (fst (request_begin P C snap now w)) = exception_calls w"
  using exception_calls_append[OF trace_request_begin[of P C snap now w]]
  by simp

lemma transport_calls_request_end:
  "transport_calls (request_end P C snap out now w) = transport_calls w"
proof (cases out)
  case (Resolved d)
  then show ?thesis
    using transport_calls_append[OF trace_request_end_resolved[of P C snap d now w]] by simp
next
  case (Rejected e)
  have "trace (request_end P C snap (Rejected e) now w) =
      trace w @ ((if isCancel e then []
                else log_events P ''error'' (''Request to '' @ url P C @ '' failed'')) @
       (case snd (request_rejected P C snap e w) of
          None \<Rightarrow> []
        | Some x \<Rightarrow> if onException P then [ExceptionCallback x] else []))"
    by (simp add: trace_request_end_rejected trace_request_rejected)
  from transport_calls_append[OF this] Rejected show ?thesis
    by (simp split: option.split)
qed

lemma exception_calls_request_end_rejected:
  "exception_calls (request_end P C snap (Rejected e) now w) =
     exception_calls w @
       (case snd (request_rejected P C snap e w) of
          None \<Rightarrow> []
        | Some x \<Rightarrow> if onException P then [x] else [])"
proof -
  have "trace (request_end P C snap (Rejected e) now w) =
      trace w @ ((if isCancel e then []
                else log_events P ''error'' (''Request to '' @ url P C @ '' failed'')) @
       (case snd (request_rejected P C snap e w) of
          None \<Rightarrow> []
        | Some x \<Rightarrow> if onException P then [ExceptionCallback x] else []))"
    by (simp add: trace_request_end_rejected trace_request_rejected)
  from exception_calls_append[OF this] show ?thesis
    by (simp split: option.split)
qed

lemma exception_calls_request_end_resolved:
  "exception_calls (request_end P C snap (Resolved d) now w) = exception_calls w"
  using exception_calls_append[OF trace_request_end_resolved[of P C snap d now w]] by simp

lemma retry_timers_cancel [simp]: "retry_timers (cancel snap w) = retry_timers w"
  by (simp add: cancel_def retry_timers_def split: option.split)

lemma observations_emit [simp]:
  "exception_calls (emit ev w) = exception_calls w @ reported ev"
  "transport_calls (emit ev w) = transport_calls w + (if is_transport_call ev then 1 else 0)"
  "retry_timers (emit ev w) = retry_timers w"
  by (simp_all add: exception_calls_def transport_calls_def retry_timers_def)

section \<open>Polling, progress events and the invariants of a run\<close>

lemma st_cancel: "st (cancel snap w) = st w"
  by (simp add: cancel_def split: option.split)

lemma st_stopPolling:
  "st (stopPolling snap w) =
     (case intervalId snap of None \<Rightarrow> st w | Some h \<Rightarrow> (st w)\<lparr>intervalId := None\<rparr>)"
  by (simp add: stopPolling_def split: option.split)

lemma next_handle_stopPolling: "next_handle (stopPolling snap w) = next_handle w"
  by (simp add: stopPolling_def split: option.split)

lemma timers_stopPolling:
  "timers (stopPolling snap w) =
     (case intervalId snap of
        None \<Rightarrow> timers w
      | Some h \<Rightarrow> filter (\<lambda>t. tid t \<noteq> h) (timers w))"
  by (simp add: stopPolling_def split: option.split)

lemma st_startPolling:
  "st (startPolling C snap w) =
     (if polling_on C then (st w)\<lparr>intervalId := Some (next_handle w)\<rparr> else st w)"
  by (simp add: startPolling_def polling_on_def Let_def split_beta st_stopPolling
      next_handle_stopPolling split: option.split)

lemma timers_startPolling:
  "timers (startPolling C snap w) =
     (if polling_on C
      then timers (stopPolling snap w) @
           [\<lparr>tid = next_handle w, period = the (refresh C), recurring = True,
             job = PollRequest\<rparr>]
      else timers w)"
  by (simp add: startPolling_def polling_on_def Let_def split_beta next_handle_stopPolling
      split: option.split)

lemma st_updateProgress_upload:
  "st (updateProgress ev setUploadProgress cb w) =
     (case total ev of
        None \<Rightarrow> st w
      | Some t \<Rightarrow>
          if t = 0 then st w
          else (st w)\<lparr>uploadProgress := js_round (of_nat (loaded ev * 100) / of_nat t)\<rparr>)"
  by (simp add: updateProgress_def Let_def split: option.split)

lemma st_updateProgress_download:
  "st (updateProgress ev setDownloadProgress cb w) =
     (case total ev of
        None \<Rightarrow> st w
      | Some t \<Rightarrow>
          if t = 0 then st w
          else (st w)\<lparr>downloadProgress := js_round (of_nat (loaded ev * 100) / of_nat t)\<rparr>)"
  by (simp add: updateProgress_def Let_def split: option.split)

lemma st_triggerProgressChange:
  "st (triggerProgressChange P snap w) =
     (case progressPrefs P of
        None \<Rightarrow> st w
      | Some pc \<Rightarrow>
          (st w)\<lparr>progress :=
            (if progressMode pc = Some ''upload'' then uploadProgress snap
             else if progressMode pc = Some ''download'' then downloadProgress snap
             else (uploadProgress snap + downloadProgress snap) / 2)\<rparr>)"
  by (simp add: triggerProgressChange_def split: option.split)

subsection \<open>Integers among the rationals\<close>

lemma integral_iff: "integral x \<longleftrightarrow> x \<in> \<int>"
  unfolding integral_def by (metis Ints_of_int of_int_floor)

lemma percentage_zero [simp]: "percentage 0"
  by (simp add: percentage_def integral_def)

lemma percentage_js_round:
  assumes "0 < t" and "l \<le> t"
  shows "percentage (js_round (of_nat l * 100 / of_nat t))"
proof -
  let ?x = "(of_nat l * 100 / of_nat t) :: rat"
  have pos: "(0::rat) < of_nat t" using assms(1) by simp
  have lo: "0 \<le> ?x" by simp
  have "(of_nat l :: rat) \<le> of_nat t" using assms(2) by (simp only: of_nat_le_iff)
  then have "(of_nat l :: rat) * 100 \<le> 100 * of_nat t" by simp
  then have hi: "?x \<le> 100" using pos by (simp add: divide_le_eq)
  have f0: "0 \<le> \<lfloor>?x + 1 / 2\<rfloor>" using lo by (simp add: zero_le_floor)
  have "?x + 1 / 2 < 101" using hi by simp
  then have "\<lfloor>?x + 1 / 2\<rfloor> < 101" by (simp add: floor_less_iff)
  then have f1: "\<lfloor>?x + 1 / 2\<rfloor> \<le> 100" by simp
  have i: "integral (of_int \<lfloor>?x + 1 / 2\<rfloor>)" by (simp add: integral_def)
  have b0: "(0::rat) \<le> of_int \<lfloor>?x + 1 / 2\<rfloor>" using f0 by (simp only: of_int_0_le_iff)
  have b1: "(of_int \<lfloor>?x + 1 / 2\<rfloor> :: rat) \<le> 100"
    using f1 by (metis of_int_le_iff of_int_numeral)
  show ?thesis
    unfolding percentage_def js_round_def using i b0 b1 by blast
qed

lemma half_sum_percentages:
  assumes "percentage a" and "percentage b"
  shows "0 \<le> (a + b) / 2" and "(a + b) / 2 \<le> 100" and "integral (2 * ((a + b) / 2))"
proof -
  show "0 \<le> (a + b) / 2" using assms by (simp add: percentage_def)
  show "(a + b) / 2 \<le> 100" using assms by (simp add: percentage_def)
  have "a \<in> \<int>" "b \<in> \<int>" using assms by (simp_all add: percentage_def integral_iff)
  then have "a + b \<in> \<int>" by simp
  moreover have "2 * ((a + b) / 2) = a + b" by simp
  ultimately show "integral (2 * ((a + b) / 2))" by (simp only: integral_iff)
qed

lemma percentage_doubles: "percentage a \<Longrightarrow> integral (2 * a)"
  by (simp add: percentage_def integral_iff)

subsection \<open>What every reachable world satisfies\<close>

lemma reachable_retryCount: "reachable P C w \<Longrightarrow> retryCount (st w) \<le> max_retries P"
proof (induction rule: reachable.induct)
  case start
  then show ?case by (simp add: initial_world_def initial_state_def)
next
  case (begun w v now)
  then show ?case by (simp add: st_request_begin)
next
  case (ended w v out now)
  show ?case
  proof (cases out)
    case (Resolved d)
    with ended show ?thesis
      by (simp add: st_request_end_resolved st_request_resolved)
  next
    case (Rejected e)
    with ended show ?thesis
      by (auto simp: st_request_end_rejected st_request_rejected thrown_request_rejected
          may_retry_def split: option.splits)
  qed
next
  case (uploaded w ev)
  then show ?case
    by (simp add: uploadHandler_def st_updateProgress_upload split: option.split)
next
  case (downloaded w ev)
  then show ?case
    by (simp add: downloadHandler_def st_updateProgress_download split: option.split)
next
  case (ticked w v)
  then show ?case by (simp add: st_triggerProgressChange split: option.split)
next
  case (cancelled w v)
  then show ?case by (simp add: st_cancel)
next
  case (resumed w v)
  then show ?case by (simp add: st_startPolling)
next
  case (paused w v)
  then show ?case by (simp add: st_stopPolling split: option.split)
qed

lemma reachable_response_is_cache:
  "reachable P C w \<Longrightarrow> caching C \<Longrightarrow> response (st w) = cache (st w)"
proof (induction rule: reachable.induct)
  case start
  then show ?case by (simp add: initial_world_def initial_state_def)
next
  case (begun w v now)
  then show ?case by (simp add: st_request_begin)
next
  case (ended w v out now)
  show ?case
  proof (cases out)
    case (Resolved d)
    with ended show ?thesis
      by (simp add: st_request_end_resolved st_request_resolved)
  next
    case (Rejected e)
    with ended show ?thesis
      by (simp add: st_request_end_rejected st_request_rejected split: option.split)
  qed
next
  case (uploaded w ev)
  then show ?case
    by (simp add: uploadHandler_def st_updateProgress_upload split: option.split)
next
  case (downloaded w ev)
  then show ?case
    by (simp add: downloadHandler_def st_updateProgress_download split: option.split)
next
  case (ticked w v)
  then show ?case by (simp add: st_triggerProgressChange split: option.split)
next
  case (cancelled w v)
  then show ?case by (simp add: st_cancel)
next
  case (resumed w v)
  then show ?case by (simp add: st_startPolling)
next
  case (paused w v)
  then show ?case by (simp add: st_stopPolling split: option.split)
qed

lemma reachable_progress:
  "reachable P C w \<Longrightarrow>
     percentage (uploadProgress (st w)) \<and> percentage (downloadProgress (st w)) \<and>
     0 \<le> progress (st w) \<and> progress (st w) \<le> 100 \<and> integral (2 * progress (st w))"
proof (induction rule: reachable.induct)
  case start
  then show ?case by (simp add: initial_world_def initial_state_def integral_def)
next
  case (begun w v now)
  then show ?case by (simp add: st_request_begin integral_def)
next
  case (ended w v out now)
  show ?case
  proof (cases out)
    case (Resolved d)
    with ended show ?thesis
      by (simp add: st_request_end_resolved st_request_resolved)
  next
    case (Rejected e)
    with ended show ?thesis
      by (simp add: st_request_end_rejected st_request_rejected split: option.split)
  qed
next
  case (uploaded w ev)
  then show ?case
    by (auto simp: uploadHandler_def st_updateProgress_upload plausible_def
        percentage_js_round split: option.splits)
next
  case (downloaded w ev)
  then show ?case
    by (auto simp: downloadHandler_def st_updateProgress_download plausible_def
        percentage_js_round split: option.splits)
next
  case (ticked w v)
  have up: "percentage (uploadProgress (st v))" and down: "percentage (downloadProgress (st v))"
    using ticked.IH(2) by simp_all
  note half = half_sum_percentages[OF up down]
  show ?case
    using ticked.IH(1) up down half percentage_doubles[OF up] percentage_doubles[OF down]
    by (simp add: st_triggerProgressChange percentage_def split: option.split)
next
  case (cancelled w v)
  then show ?case by (simp add: st_cancel)
next
  case (resumed w v)
  then show ?case by (simp add: st_startPolling)
next
  case (paused w v)
  then show ?case by (simp add: st_stopPolling split: option.split)
qed

subsection \<open>The example runs are runs\<close>

lemma st_initial_world: "st initial_world = initial_state"
  by (simp add: initial_world_def)

lemma reachable_request:
  assumes "reachable P C w" and "reachable P C v"
  shows "reachable P C (request P C (st v) now out later w)"
proof -
  have b: "reachable P C (fst (request_begin P C (st v) now w))"
    using assms by (rule reachable.begun)
  have e: "reachable P C (request_end P C (st v) out later (fst (request_begin P C (st v) now w)))"
    using b assms(2) by (rule reachable.ended)
  show ?thesis using b e by (simp add: request_unfold)
qed

lemma reachable_first_request:
  "reachable P C (request P C initial_state now out later initial_world)"
  using reachable_request[OF reachable.start reachable.start, of P C now out later]
  by (simp add: st_initial_world)

lemma reachable_object_cached: "reachable plain_prefs cached_call object_cached"
  unfolding object_cached_def fetch_def by (rule reachable_first_request)

lemma reachable_failed_once: "reachable retry_always plain_call failed_once"
  unfolding failed_once_def by (rule reachable_first_request)

lemma reachable_broken_download: "reachable sampling_both plain_call broken_download"
proof -
  let ?w1 = "fst (request_begin sampling_both plain_call initial_state 0 initial_world)"
  have "reachable sampling_both plain_call ?w1"
    using reachable.begun[OF reachable.start reachable.start, of sampling_both plain_call 0]
    by (simp add: st_initial_world)
  then have "reachable sampling_both plain_call
      (downloadHandler sampling_both \<lparr>loaded = 1, total = Some 3\<rparr> ?w1)"
    by (rule reachable.downloaded) (simp add: plausible_def)
  from reachable.ended[OF this reachable.start, of "Rejected (Failure 7)" 5]
  show ?thesis by (simp add: broken_download_def st_initial_world)
qed

lemma reachable_sampled_after_failure:
  "reachable sampling_both plain_call sampled_after_failure"
  unfolding sampled_after_failure_def
  by (intro reachable.ticked reachable.begun reachable_broken_download)

lemma initial_observations:
  "transport_calls initial_world = 0" "exception_calls initial_world = []"
  "retry_timers initial_world = []" "poll_timers initial_world = []"
  by (simp_all add: transport_calls_def exception_calls_def retry_timers_def poll_timers_def
      initial_world_def)

lemma reachable_sampling_in_flight: "reachable sampling_both plain_call sampling_in_flight"
proof -
  let ?w1 = "fst (request_begin sampling_both plain_call initial_state 0 initial_world)"
  have "reachable sampling_both plain_call ?w1"
    using reachable.begun[OF reachable.start reachable.start, of sampling_both plain_call 0]
    by (simp add: st_initial_world)
  then have "reachable sampling_both plain_call
      (uploadHandler sampling_both \<lparr>loaded = 40, total = Some 100\<rparr> ?w1)"
    by (rule reachable.uploaded) (simp add: plausible_def)
  then show ?thesis
    unfolding sampling_in_flight_def
    by (rule reachable.downloaded) (simp add: plausible_def)
qed

lemma reachable_sampled_in_flight: "reachable sampling_both plain_call sampled_in_flight"
  using reachable.ticked[OF reachable_sampling_in_flight reachable.start]
  by (simp add: sampled_in_flight_def st_initial_world)

section \<open>The claims\<close>

subsection \<open>C9: the level filter of the logger\<close>

text \<open>
  C9. \<open>logger level message\<close> reaches the sink exactly when logging is enabled and the
  configured level admits the message's level under the hierarchy of the specification
  (\<open>spec_admits\<close>: \<open>debug\<close> admits everything, \<open>info\<close> admits info, warn and error,
  \<open>warn\<close> admits warn and error, \<open>error\<close> admits error only, anything else admits
  nothing). When it does, the sink receives exactly one call: the custom sink with
  \<open>(level, message)\<close> if one is configured, the console with \<open>[level] message\<close>
  otherwise. When it does not, the world is left as it was.
\<close>

theorem logger_passes_iff_admitted:
  "logger P level message w =
     (if logging_enabled P \<and> spec_admits (configured_level P) level
      then emit (sink_event P level message) w else w) \<and>
   (logger P level message w \<noteq> w) =
     (logging_enabled P \<and> spec_admits (configured_level P) level)"
proof -
  have eq: "logger P level message w =
     (if logging_enabled P \<and> spec_admits (configured_level P) level
      then emit (sink_event P level message) w else w)"
    by (simp add: logger_def logging_enabled_def configured_level_def sink_event_def
        shouldLog_spec split: option.split)
  show ?thesis
    using eq emit_changes[of "sink_event P level message" w] by auto
qed

text \<open>
  At level \<open>warn\<close> with a custom sink: an info message is suppressed, warn and error
  messages are handed to the sink.
\<close>

theorem logger_passes_iff_admitted_witness:
  "logger warn_sink ''info'' ''m'' initial_world = initial_world \<and>
   logger warn_sink ''warn'' ''m'' initial_world = emit (SinkCall ''warn'' ''m'') initial_world \<and>
   logger warn_sink ''error'' ''m'' initial_world = emit (SinkCall ''error'' ''m'') initial_world"
  using logger_passes_iff_admitted[of warn_sink "''info''" "''m''" initial_world]
    logger_passes_iff_admitted[of warn_sink "''warn''" "''m''" initial_world]
    logger_passes_iff_admitted[of warn_sink "''error''" "''m''" initial_world]
  by (simp add: warn_sink_def logging_enabled_def configured_level_def sink_event_def
      spec_admits_def spec_levels_def)

subsection \<open>C10: \<open>cancel\<close> without a cancel source\<close>

text \<open>
  C10. When the cancel source that \<open>cancel\<close> sees is null, \<open>cancel\<close> changes nothing:
  no cell, no timer, no call to the outside. The model of \<open>cancel\<close> has no failing
  outcome, as the body is a guarded call.
\<close>

theorem cancel_without_source_is_noop: "source snap = None \<Longrightarrow> cancel snap w = w"
  by (simp add: cancel_def)

theorem cancel_without_source_is_noop_witness:
  "source initial_state = None \<and> cancel initial_state initial_world = initial_world"
  using cancel_without_source_is_noop[of initial_state initial_world]
  by (simp add: initial_state_def)

subsection \<open>C8: the progress value computed on a sampling tick\<close>

text \<open>
  C8. What the code does where the claim expects the progress value to follow the
  counters: the sampling timer is armed inside \<open>request\<close> with the
  \<open>triggerProgressChange\<close> of the render that called \<open>request\<close>, and \<open>request\<close> then
  resets the live counters, so a tick never reads the counters of the transfer it
  samples. In the first request, in mode \<open>both\<close>, with the live counters at
  \<open>uploadProgress = 40\<close> and \<open>downloadProgress = 60\<close>, the tick computes the mean of the
  counters of the first render, 0 and 0, and sets \<open>progress\<close> to 0, not to 50.
\<close>

theorem tick_reads_stale_counters:
  "reachable sampling_both plain_call sampling_in_flight \<and>
   loading (st sampling_in_flight) \<and>
   uploadProgress (st sampling_in_flight) = 40 \<and>
   downloadProgress (st sampling_in_flight) = 60 \<and>
   map job (timers sampling_in_flight) = [ProgressTick] \<and>
   sampled_in_flight = setProgress 0 sampling_in_flight \<and>
   progress (st sampled_in_flight) = 0 \<and>
   uploadProgress (st sampled_in_flight) = 40 \<and>
   downloadProgress (st sampled_in_flight) = 60"
proof -
  have r: "js_round 40 = 40" "js_round 60 = 60" by code_simp+
  have c: "\<not> cache_fresh plain_call initial_state 0"
    by (simp add: cache_fresh_def plain_call_def)
  have s: "loading (st sampling_in_flight)" "uploadProgress (st sampling_in_flight) = 40"
    "downloadProgress (st sampling_in_flight) = 60"
    using c
    by (simp_all add: sampling_in_flight_def downloadHandler_def uploadHandler_def
        st_updateProgress_download st_updateProgress_upload st_request_begin r)
  have t: "map job (timers sampling_in_flight) = [ProgressTick]"
    using c
    by (simp add: sampling_in_flight_def downloadHandler_def uploadHandler_def
        updateProgress_def timers_request_begin timers_arm sampling_on_def sampling_both_def
        cleared_def initial_state_def initial_world_def)
  have k: "sampled_in_flight = setProgress 0 sampling_in_flight"
    by (simp add: sampled_in_flight_def triggerProgressChange_def sampling_both_def
        initial_state_def)
  have p: "progress (st sampled_in_flight) = 0" "uploadProgress (st sampled_in_flight) = 40"
    "downloadProgress (st sampled_in_flight) = 60"
    by (simp_all add: k s)
  show ?thesis
    using reachable_sampling_in_flight s t k p by blast
qed

subsection \<open>The mode mapping of \<open>triggerProgressChange\<close>\<close>

text \<open>
  Taken by itself, \<open>triggerProgressChange\<close> with a progress configuration present sets
  \<open>progress\<close> from the two counters its closure holds (\<open>snap\<close>, not the live cells), by
  the configured mode: \<open>upload\<close> gives \<open>uploadProgress\<close>, \<open>download\<close> gives
  \<open>downloadProgress\<close>, any other mode (also an absent one) gives their arithmetic mean;
  with mode \<open>both\<close> and closure counters 40 and 60 the result is 50.
\<close>

theorem tick_recomputes_progress:
  assumes "progressPrefs P = Some pc"
  shows "(progressMode pc = Some ''upload'' \<longrightarrow>
            triggerProgressChange P snap w = setProgress (uploadProgress snap) w) \<and>
         (progressMode pc = Some ''download'' \<longrightarrow>
            triggerProgressChange P snap w = setProgress (downloadProgress snap) w) \<and>
         (progressMode pc \<noteq> Some ''upload'' \<and> progressMode pc \<noteq> Some ''download'' \<longrightarrow>
            triggerProgressChange P snap w =
              setProgress ((uploadProgress snap + downloadProgress snap) / 2) w) \<and>
         (progressMode pc = Some ''both'' \<and> uploadProgress snap = 40 \<and>
          downloadProgress snap = 60 \<longrightarrow>
            progress (st (triggerProgressChange P snap w)) = 50)"
  using assms by (simp add: triggerProgressChange_def)

theorem tick_recomputes_progress_witness:
  "progress (st (triggerProgressChange sampling_both
      (initial_state\<lparr>uploadProgress := 40, downloadProgress := 60\<rparr>) initial_world)) = 50"
  using tick_recomputes_progress[of sampling_both
      "\<lparr>progressMode = Some ''both'', progressInterval = Some 100,
        onUploadProgress = False, onDownloadProgress = False\<rparr>"
      "initial_state\<lparr>uploadProgress := 40, downloadProgress := 60\<rparr>" initial_world]
  by (simp add: sampling_both_def)

subsection \<open>C4: a cancelled request\<close>



subsection \<open>C5: a retry condition that declines\<close>

text \<open>
  C5. With retry enabled and a \<open>retryCondition\<close> that answers false for the failure, a
  request whose transport call fails (not by cancellation) invokes the transport exactly
  once, arms no retry timer, stores the failure in \<open>error\<close>, calls \<open>onException\<close> with
  it if one is configured, and ends with \<open>loading = False\<close>.
\<close>

theorem condition_false_surfaces_error:
  assumes "retry P = Some r" and "enableRetry r" and "retryCondition r = Some cond"
    and "\<not> cond e" and "\<not> isCancel e" and "\<not> cache_fresh C snap now"
  shows "let w' = request P C snap now (Rejected e) later w
         in transport_calls w' = transport_calls w + 1 \<and>
            set (retry_timers w') \<subseteq> set (retry_timers w) \<and>
            error (st w') = Some e \<and>
            exception_calls w' = exception_calls w @ (if onException P then [e] else []) \<and>
            loading (st w') = False"
proof -
  let ?w1 = "fst (request_begin P C snap now w)"
  let ?w' = "request_end P C snap (Rejected e) later ?w1"
  have rq: "request P C snap now (Rejected e) later w = ?w'"
    using assms(6) by (simp add: request_unfold)
  have rej: "condition_rejects P e" "\<not> condition_accepts P e"
    using assms by (simp_all add: condition_rejects_def condition_accepts_def)
  have thrown: "snd (request_rejected P C snap e ?w1) = Some e"
    using assms(5) rej by (simp add: thrown_request_rejected)
  have n: "transport_calls ?w' = transport_calls w + 1"
    using assms(6) by (simp add: transport_calls_request_end
        transport_calls_request_begin)
  have t: "set (retry_timers ?w') \<subseteq> set (retry_timers w)"
  proof -
    have "set (retry_timers ?w') \<subseteq> set (retry_timers ?w1)"
      by (rule retry_timers_request_end_quiet) (simp add: rej)
    moreover have "set (retry_timers ?w1) \<subseteq> set (retry_timers w)"
      by (rule retry_timers_request_begin)
    ultimately show ?thesis by auto
  qed
  have s: "error (st ?w') = Some e" "loading (st ?w') = False"
    by (simp_all add: st_request_end_rejected thrown)
  have x: "exception_calls ?w' = exception_calls w @ (if onException P then [e] else [])"
    by (simp add: exception_calls_request_end_rejected thrown
        exception_calls_request_begin)
  show ?thesis
    unfolding Let_def rq using n t s x by simp
qed

theorem condition_false_surfaces_error_witness:
  "(let w' = request retry_never plain_call initial_state 0 (Rejected (Failure 7)) 5 initial_world
    in transport_calls w' = 1 \<and> retry_timers w' = [] \<and> error (st w') = Some (Failure 7) \<and>
       exception_calls w' = [Failure 7] \<and> loading (st w') = False)"
proof -
  have r: "retry_timers initial_world = []" "exception_calls initial_world = []"
    "transport_calls initial_world = 0"
    by (simp_all add: retry_timers_def exception_calls_def transport_calls_def initial_world_def)
  have h: "\<not> cache_fresh plain_call initial_state 0"
    by (simp add: cache_fresh_def plain_call_def)
  show ?thesis
    using condition_false_surfaces_error[of retry_never
        "\<lparr>enableRetry = True, maxRetryCount = Some 3, retryInterval = None,
          retryCondition = Some (\<lambda>e. False)\<rparr>" "\<lambda>e. False" "Failure 7" plain_call
        initial_state 0 5 initial_world] h
    by (simp add: Let_def r retry_never_def plain_prefs_def)
qed

subsection \<open>C1: retry enabled, no retry condition\<close>

text \<open>
  C1. What the code does where the claim expects a retry: with retry enabled, no
  \<open>retryCondition\<close> configured and \<open>retryCount\<close> below the maximum, a transport failure
  (not a cancellation) falls through the inner \<open>if\<close>, which has no \<open>else\<close>: the transport
  is invoked once, \<open>retryCount\<close> is not incremented, no retry timer is armed, and the
  failure is neither stored in \<open>error\<close> nor passed to \<open>onException\<close>.
\<close>

theorem retry_without_condition_drops_failure:
  assumes "retry P = Some r" and "enableRetry r" and "retryCondition r = None"
    and "retryCount snap < max_retries P" and "\<not> isCancel e" and "\<not> cache_fresh C snap now"
  shows "let w' = request P C snap now (Rejected e) later w
         in transport_calls w' = transport_calls w + 1 \<and>
            set (retry_timers w') \<subseteq> set (retry_timers w) \<and>
            retryCount (st w') = retryCount (st w) \<and>
            error (st w') = None \<and>
            exception_calls w' = exception_calls w \<and>
            loading (st w') = False"
proof -
  let ?w1 = "fst (request_begin P C snap now w)"
  let ?w' = "request_end P C snap (Rejected e) later ?w1"
  have rq: "request P C snap now (Rejected e) later w = ?w'"
    using assms(6) by (simp add: request_unfold)
  have rej: "\<not> condition_rejects P e" "\<not> condition_accepts P e" "may_retry P snap"
    using assms by (simp_all add: condition_rejects_def condition_accepts_def may_retry_def)
  have thrown: "snd (request_rejected P C snap e ?w1) = None"
    using assms(5) rej by (simp add: thrown_request_rejected)
  have n: "transport_calls ?w' = transport_calls w + 1"
    using assms(6) by (simp add: transport_calls_request_end
        transport_calls_request_begin)
  have t: "set (retry_timers ?w') \<subseteq> set (retry_timers w)"
  proof -
    have "set (retry_timers ?w') \<subseteq> set (retry_timers ?w1)"
      by (rule retry_timers_request_end_quiet) (simp add: rej)
    moreover have "set (retry_timers ?w1) \<subseteq> set (retry_timers w)"
      by (rule retry_timers_request_begin)
    ultimately show ?thesis by auto
  qed
  have s: "error (st ?w') = None" "loading (st ?w') = False"
    "retryCount (st ?w') = retryCount (st w)"
    using assms(5) rej
    by (simp_all add: st_request_end_rejected thrown st_request_rejected
        st_request_begin)
  have x: "exception_calls ?w' = exception_calls w"
    by (simp add: exception_calls_request_end_rejected thrown
        exception_calls_request_begin)
  show ?thesis
    unfolding Let_def rq using n t s x by simp
qed

text \<open>
  The failing input of C1: \<open>retry = {enableRetry: true, maxRetryCount: 3}\<close>, a first
  \<open>fetch()\<close>, a transport that rejects.
\<close>

theorem retry_without_condition_drops_failure_witness:
  "(let w' = request retry_unconditional plain_call initial_state 0 (Rejected (Failure 7)) 5
               initial_world
    in transport_calls w' = 1 \<and> retry_timers w' = [] \<and> retryCount (st w') = 0 \<and>
       error (st w') = None \<and> exception_calls w' = [] \<and> loading (st w') = False)"
proof -
  have r: "retry_timers initial_world = []" "exception_calls initial_world = []"
    "transport_calls initial_world = 0" "retryCount (st initial_world) = 0"
    by (simp_all add: retry_timers_def exception_calls_def transport_calls_def
        initial_world_def initial_state_def)
  have h: "\<not> cache_fresh plain_call initial_state 0"
    by (simp add: cache_fresh_def plain_call_def)
  have m: "retryCount initial_state < max_retries retry_unconditional"
    by (simp add: max_retries_def retry_unconditional_def plain_prefs_def initial_state_def)
  show ?thesis
    using retry_without_condition_drops_failure[of retry_unconditional
        "\<lparr>enableRetry = True, maxRetryCount = Some 3, retryInterval = None,
          retryCondition = None\<rparr>" initial_state "Failure 7" plain_call 0 5 initial_world] h m
    by (simp add: Let_def r retry_unconditional_def plain_prefs_def)
qed

subsection \<open>C2: a fresh cache answers without the transport\<close>

text \<open>
  C2. What the code does where the claim expects the cache to answer. The store path
  caches every payload under a TTL, but the cache test is \<open>config.ttl && cache && ...\<close>,
  so a cached body of \<open>0\<close>, \<open>false\<close> or the empty string is never served: the first
  \<open>fetch()\<close> under a TTL of a minute stores the body \<open>0\<close> at time 10, and the second
  \<open>fetch()\<close>, through the next render at time 20, invokes the transport again. The test
  also reads the cache its render bound: after a first \<open>fetch()\<close> has cached an object, a
  second \<open>fetch()\<close> through the accessors of the first render sees the empty cache and
  invokes the transport again.
\<close>

theorem falsy_payload_is_fetched_again:
  "ttl cached_call = Some 60000 \<and> cache (st zero_cached) = JNum 0 \<and>
   20 < cacheTime (st zero_cached) + 60000 \<and>
   transport_calls zero_cached = 1 \<and> transport_calls zero_refetched = 2 \<and>
   cache (st object_cached) = JObj 1 \<and> 20 < cacheTime (st object_cached) + 60000 \<and>
   transport_calls object_cached = 1 \<and> transport_calls object_refetched_stale = 2"
  by (simp add: zero_refetched_def zero_cached_def object_refetched_stale_def
      object_cached_def fetch_def request_unfold cache_fresh_def
      cached_call_def st_request_begin st_request_end_resolved st_request_resolved caching_def
      transport_calls_request_begin transport_calls_request_end initial_state_def
      initial_observations)

subsection \<open>A truthy cache in the closure that runs\<close>

text \<open>
  For every TTL above 0: when \<open>fetch()\<close> runs in a closure whose cached payload is truthy
  and unexpired (\<open>now < cacheTime + ttl\<close>), the transport is not invoked and the
  \<open>response\<close> cell is left as it is (the code assigns the cache to a local variable
  only). In every run that cell holds the payload of the live \<open>cache\<close> cell, since every
  success under a TTL writes both.
\<close>

theorem fresh_cache_skips_transport:
  assumes "ttl C = Some t" and "0 < t" and "truthy (cache snap)"
    and "now < cacheTime snap + t"
  shows "transport_calls (fetch P C snap now out later w) = transport_calls w \<and>
         response (st (fetch P C snap now out later w)) = response (st w) \<and>
         (reachable P C w \<longrightarrow>
            response (st (fetch P C snap now out later w)) = cache (st w))"
proof -
  have fresh: "cache_fresh C snap now"
    using assms by (simp add: cache_fresh_def)
  have c: "caching C" using assms by (simp add: caching_def)
  have f: "fetch P C snap now out later w = fst (request_begin P C snap now w)"
    using fresh by (simp add: fetch_def request_unfold)
  have n: "transport_calls (fetch P C snap now out later w) = transport_calls w"
    using fresh by (simp add: f transport_calls_request_begin)
  have r: "response (st (fetch P C snap now out later w)) = response (st w)"
    by (simp add: f st_request_begin)
  have "response (st (fetch P C snap now out later w)) = cache (st w)" if "reachable P C w"
    using r reachable_response_is_cache[OF that c] by simp
  then show ?thesis
    using n r by blast
qed

theorem fresh_cache_skips_transport_witness:
  "transport_calls object_cached = 1 \<and>
   transport_calls (fetch plain_prefs cached_call (st object_cached) 20 (Resolved (JObj 2)) 30
      object_cached) = 1 \<and>
   response (st (fetch plain_prefs cached_call (st object_cached) 20 (Resolved (JObj 2)) 30
      object_cached)) = JObj 1"
proof -
  have s: "cache (st object_cached) = JObj 1" "cacheTime (st object_cached) = 10"
    "transport_calls object_cached = 1" "response (st object_cached) = JObj 1"
    by (simp_all add: object_cached_def fetch_def request_unfold cache_fresh_def
      cached_call_def st_request_begin st_request_end_resolved st_request_resolved caching_def
      transport_calls_request_begin transport_calls_request_end initial_state_def
      initial_observations)
  have h: "ttl cached_call = Some 60000" "(0::int) < 60000"
    "truthy (cache (st object_cached))" "20 < cacheTime (st object_cached) + 60000"
    by (simp_all add: cached_call_def s)
  show ?thesis
    using fresh_cache_skips_transport[OF h, of plain_prefs "Resolved (JObj 2)" 30
        object_cached] reachable_object_cached
    by (simp add: s)
qed

subsection \<open>C3: the bound on \<open>retryCount\<close> and its resets\<close>

text \<open>
  C3, as stated, fails twice. A successful completion does not reset \<open>retryCount\<close>: after
  one failed attempt that was retried, the successful retry leaves \<open>retryCount = 1\<close>. And
  the bound is \<open>maxRetryCount || 3\<close>, not the configured number: under
  \<open>maxRetryCount = 0\<close> the first failure sets \<open>retryCount\<close> to 1.
\<close>

theorem success_keeps_retryCount:
  "retryCount (st failed_once) = 1 \<and> response (st retry_succeeded) = JObj 1 \<and>
   error (st retry_succeeded) = None \<and> retryCount (st retry_succeeded) = 1 \<and>
   retryCount (st failed_under_zero_max) = 1"
  by (simp add: retry_succeeded_def failed_once_def failed_under_zero_max_def request_unfold
      cache_fresh_def plain_call_def st_request_begin st_request_end_resolved
      st_request_resolved st_request_end_rejected st_request_rejected thrown_request_rejected
      caching_def may_retry_def max_retries_def condition_accepts_def condition_rejects_def
      retry_always_def retry_zero_max_def plain_prefs_def initial_state_def initial_world_def)

text \<open>
  C3, amended. In every run \<open>retryCount\<close> never exceeds the effective maximum
  (\<open>maxRetryCount\<close>, or 3 when that is absent or 0). It is reset to 0, and the failure is
  stored in \<open>error\<close>, when a request that failed (not by cancellation) gives up: retry is
  disabled, or the \<open>retryCount\<close> the request sees has reached the maximum. A successful
  completion leaves \<open>retryCount\<close> as it is.
\<close>

theorem retryCount_bounded_and_reset_on_give_up:
  "(reachable P C w \<longrightarrow> retryCount (st w) \<le> max_retries P) \<and>
   (\<not> isCancel e \<and> \<not> may_retry P snap \<longrightarrow>
      retryCount (st (request_end P C snap (Rejected e) now w)) = 0 \<and>
      error (st (request_end P C snap (Rejected e) now w)) = Some e) \<and>
   retryCount (st (request_end P C snap (Resolved d) now w)) = retryCount (st w)"
  by (simp add: reachable_retryCount st_request_end_rejected st_request_rejected
      thrown_request_rejected st_request_end_resolved st_request_resolved)

theorem retryCount_bounded_and_reset_on_give_up_witness:
  "retryCount (st failed_once) \<le> 3 \<and>
   retryCount (st (request_end retry_always plain_call (initial_state\<lparr>retryCount := 3\<rparr>)
      (Rejected (Failure 7)) 9 failed_once)) = 0 \<and>
   error (st (request_end retry_always plain_call (initial_state\<lparr>retryCount := 3\<rparr>)
      (Rejected (Failure 7)) 9 failed_once)) = Some (Failure 7) \<and>
   retryCount (st (request_end retry_always plain_call (initial_state\<lparr>retryCount := 3\<rparr>)
      (Resolved JNull) 9 failed_once)) = retryCount (st failed_once)"
  using retryCount_bounded_and_reset_on_give_up[of retry_always plain_call failed_once
      "Failure 7" "initial_state\<lparr>retryCount := 3\<rparr>" 9 JNull] reachable_failed_once
  by (simp add: may_retry_def max_retries_def retry_always_def plain_prefs_def)

subsection \<open>C7: the range of the progress cells\<close>

text \<open>
  C7, as stated, fails for \<open>progress\<close>: in the default mode it is the mean of the two
  counters, computed by \<open>/\<close> with no rounding, so an odd sum gives a half. Here a download
  breaks off at one byte of three (\<open>downloadProgress = 33\<close>), and the sampling timer of the
  next \<open>fetch()\<close> sets \<open>progress\<close> to 33/2.
\<close>

theorem progress_can_be_a_half:
  "reachable sampling_both plain_call sampled_after_failure \<and>
   downloadProgress (st broken_download) = 33 \<and>
   progress (st sampled_after_failure) = 33 / 2 \<and>
   \<not> integral (progress (st sampled_after_failure))"
proof -
  have r: "js_round (100 / 3) = 33" by code_simp
  have d: "downloadProgress (st broken_download) = 33" "uploadProgress (st broken_download) = 0"
    by (simp_all add: broken_download_def st_request_end_rejected st_request_rejected
        thrown_request_rejected may_retry_def sampling_both_def
        st_request_begin downloadHandler_def st_updateProgress_download r initial_state_def)
  have p: "progress (st sampled_after_failure) = 33 / 2"
    by (simp add: sampled_after_failure_def st_triggerProgressChange sampling_both_def d)
  have h: "\<not> integral (progress (st sampled_after_failure))"
    unfolding p by code_simp
  show ?thesis using reachable_sampled_after_failure d(1) p h by blast
qed

text \<open>
  C7, amended. In every run in which the transport never reports more bytes loaded than
  the total it announces, \<open>uploadProgress\<close> and \<open>downloadProgress\<close> are integers from 0 to
  100, and \<open>progress\<close> lies between 0 and 100 and is an integer or an integer plus a half.
\<close>

theorem progress_cells_in_range:
  "reachable P C w \<Longrightarrow>
     percentage (uploadProgress (st w)) \<and> percentage (downloadProgress (st w)) \<and>
     0 \<le> progress (st w) \<and> progress (st w) \<le> 100 \<and> integral (2 * progress (st w))"
  by (rule reachable_progress)

theorem progress_cells_in_range_witness:
  "percentage (uploadProgress (st sampled_after_failure)) \<and>
   percentage (downloadProgress (st sampled_after_failure)) \<and>
   0 \<le> progress (st sampled_after_failure) \<and> progress (st sampled_after_failure) \<le> 100 \<and>
   integral (2 * progress (st sampled_after_failure))"
  using progress_cells_in_range[OF reachable_sampled_after_failure] by simp

subsection \<open>C6: one poll timer\<close>

text \<open>
  C6. What the code does where the claim expects one timer: \<open>stopPolling\<close> clears the
  handle its own render bound, not the live one. Two calls of \<open>polling.resume()\<close> through
  the accessors of the same render (here the first, where \<open>intervalId\<close> is null) arm two
  recurring timers, and the first can no longer be cleared: its handle is overwritten.
  \<open>polling.pause()\<close> through the same accessors leaves the timer running.
\<close>

theorem double_resume_arms_two_timers:
  "intervalId initial_state = None \<and>
   map tid (poll_timers resumed_once) = [1] \<and>
   map tid (poll_timers resumed_twice) = [1, 2] \<and>
   intervalId (st resumed_twice) = Some 2 \<and>
   stopPolling initial_state resumed_once = resumed_once"
  by (simp add: resumed_twice_def resumed_once_def startPolling_def stopPolling_def
      polled_call_def poll_timers_def initial_state_def initial_world_def setInterval_def
      setIntervalId_def)

subsection \<open>Polling through the latest render\<close>

text \<open>
  When \<open>refresh\<close> is set, \<open>startPolling\<close> is called through the latest render (its
  \<open>intervalId\<close> is the live one) and every active poll timer is the one \<open>intervalId\<close>
  names, then afterwards exactly one poll timer is active, the new one, and \<open>intervalId\<close>
  names it; so the condition holds again for the next call. \<open>stopPolling\<close> in a closure
  whose \<open>intervalId\<close> is null changes nothing.
\<close>

theorem resume_through_latest_render:
  assumes "polling_on C" and "intervalId snap = intervalId (st w)"
    and "set (map tid (poll_timers w)) \<subseteq> set_option (intervalId (st w))"
  shows "map tid (poll_timers (startPolling C snap w)) = [next_handle w] \<and>
         intervalId (st (startPolling C snap w)) = Some (next_handle w) \<and>
         (intervalId snap = None \<longrightarrow> stopPolling snap w = w)"
proof -
  have gone: "filter (\<lambda>t. job t = PollRequest) (timers (stopPolling snap w)) = []"
    using assms(2,3)
    by (auto simp: timers_stopPolling poll_timers_def filter_empty_conv split: option.splits)
  show ?thesis
    using assms(1) gone
    by (simp add: poll_timers_def timers_startPolling st_startPolling stopPolling_def)
qed

theorem resume_through_latest_render_witness:
  "map tid (poll_timers (startPolling polled_call (st resumed_once) resumed_once)) = [2] \<and>
   intervalId (st (startPolling polled_call (st resumed_once) resumed_once)) = Some 2 \<and>
   stopPolling initial_state initial_world = initial_world"
proof -
  have s: "intervalId (st resumed_once) = Some 1" "map tid (poll_timers resumed_once) = [1]"
    "next_handle resumed_once = 2"
    by (simp_all add: resumed_once_def startPolling_def stopPolling_def
      polled_call_def poll_timers_def initial_state_def initial_world_def setInterval_def
      setIntervalId_def)
  have on: "polling_on polled_call"
    by (simp add: polling_on_def polled_call_def)
  have h: "set (map tid (poll_timers resumed_once)) \<subseteq> set_option (intervalId (st resumed_once))"
    by (simp add: s)
  have h0: "intervalId initial_state = intervalId (st initial_world)"
    "set (map tid (poll_timers initial_world)) \<subseteq> set_option (intervalId (st initial_world))"
    "intervalId initial_state = None"
    by (simp_all add: initial_observations st_initial_world initial_state_def)
  show ?thesis
    using resume_through_latest_render[OF on refl h]
      resume_through_latest_render[OF on h0(1,2)] h0(3)
    by (simp add: s)
qed

end
